theory Spec2Isabelle
  imports Main
begin

section \<open>Data model of src/src/App.tsx\<close>

text \<open>
  The component keeps five pieces of React state (\<open>snake\<close>, \<open>food\<close>, \<open>gameOver\<close>,
  \<open>score\<close>, \<open>isPaused\<close>) and one mutable ref, \<open>directionRef.current\<close>. The
  coordinates of the cells are small integral JavaScript numbers, modelled as \<open>int\<close>.
\<close>

record Position =
  x :: int
  y :: int

definition GRID_SIZE :: int where
  "GRID_SIZE = 20"

definition INITIAL_SNAKE :: "Position list" where
  "INITIAL_SNAKE = [\<lparr>x = 10, y = 10\<rparr>]"

definition INITIAL_DIRECTION :: Position where
  "INITIAL_DIRECTION = \<lparr>x = 1, y = 0\<rparr>"

text \<open>
  \<open>directionRef\<close> is declared to hold a \<open>Position\<close>, but JavaScript stores in it whatever
  \<open>keyMap[e.key]\<close> yields, and that lookup also finds the members which every object
  literal inherits from \<open>Object.prototype\<close>. \<open>Vec d\<close> is a position object;
  \<open>Member name\<close> is the inherited member of that name, an object whose \<open>x\<close> and
  \<open>y\<close> are \<open>undefined\<close>.
\<close>

datatype DirValue = Vec Position | Member string

record GameState =
  snake :: "Position list"
  food :: Position
  gameOver :: bool
  score :: int
  isPaused :: bool
  directionRef :: DirValue

text \<open>The values of the \<open>useState\<close> and \<open>useRef\<close> initialisers (lines 15 to 20).\<close>

definition initialState :: GameState where
  "initialState =
     \<lparr>snake = INITIAL_SNAKE, food = \<lparr>x = 15, y = 15\<rparr>, gameOver = False, score = 0,
      isPaused = False, directionRef = Vec INITIAL_DIRECTION\<rparr>"

text \<open>
  The three phases of the specification are read off the two flags in the order in which
  the render and the game-loop effect test them: \<open>gameOver\<close> first, then \<open>isPaused\<close>.
\<close>

datatype Phase = Running | Paused | GameOver

definition phase :: "GameState \<Rightarrow> Phase" where
  "phase s = (if gameOver s then GameOver else if isPaused s then Paused else Running)"

section \<open>Array helpers\<close>

text \<open>\<open>Array.prototype.some\<close> with the callback receiving the element and its index.\<close>

primrec some_from :: "('a \<Rightarrow> nat \<Rightarrow> bool) \<Rightarrow> nat \<Rightarrow> 'a list \<Rightarrow> bool" where
  "some_from P i [] = False"
| "some_from P i (a # as) = (P a i \<or> some_from P (Suc i) as)"

definition array_some :: "('a \<Rightarrow> nat \<Rightarrow> bool) \<Rightarrow> 'a list \<Rightarrow> bool" where
  "array_some P xs = some_from P 0 xs"

section \<open>Food generation\<close>

text \<open>
  \<open>generateFood\<close> (lines 24 to 35) is a do-while loop around two calls of
  \<open>Math.random\<close>. The random source is a parameter: \<open>rnd i\<close> is the cell
  \<open>(Math.floor(Math.random() * GRID_SIZE), Math.floor(Math.random() * GRID_SIZE))\<close> drawn in
  iteration \<open>i\<close> of the loop. The loop has no bound, so it is a partial function: the
  value \<open>None\<close> stands for a loop that rejects every draw and never returns. The first
  argument is the \<open>snake\<close> the callback closes over.
\<close>

partial_function (option) generateFood_loop ::
  "Position list \<Rightarrow> (nat \<Rightarrow> Position) \<Rightarrow> nat \<Rightarrow> Position option" where
  "generateFood_loop snk rnd i =
     (let newFood = rnd i in
      if array_some (\<lambda>segment index. x segment = x newFood \<and> y segment = y newFood) snk
      then generateFood_loop snk rnd (Suc i)
      else Some newFood)"

definition generateFood :: "Position list \<Rightarrow> (nat \<Rightarrow> Position) \<Rightarrow> Position option" where
  "generateFood snk rnd = generateFood_loop snk rnd 0"

section \<open>Collision check\<close>

text \<open>\<open>checkCollision\<close> (lines 38 to 53); the first argument is the \<open>snake\<close> it closes over.\<close>

definition checkCollision :: "Position list \<Rightarrow> Position \<Rightarrow> bool" where
  "checkCollision snk head =
     (if x head < 0 \<or> x head \<ge> GRID_SIZE \<or> y head < 0 \<or> y head \<ge> GRID_SIZE then True
      else array_some (\<lambda>segment index. index > 0 \<and> x segment = x head \<and> y segment = y head) snk)"

section \<open>The game loop\<close>

text \<open>
  \<open>moveSnake\<close> (lines 59 to 86) is the interval callback. The effect that installs the
  interval depends on \<open>food\<close>, \<open>checkCollision\<close> and \<open>generateFood\<close>, which are rebuilt
  whenever \<open>snake\<close> changes, so the interval is reinstalled after every change and the
  \<open>snake\<close> and \<open>food\<close> its closures read are those of the state before the tick: the same
  list as \<open>prevSnake\<close>. Note that \<open>checkCollision\<close> and \<open>generateFood\<close> take no snake
  argument: both read that pre-tick snake, also after \<open>newSnake\<close> has been built.

  The new head is \<open>prevSnake[0]\<close> moved by \<open>directionRef.current\<close>.
  On an empty snake (which no run produces) \<open>prevSnake[0]\<close> is \<open>undefined\<close>, the head's
  coordinates are \<open>NaN\<close>, every comparison is false, and the popped \<open>newSnake\<close> is
  empty again: the state is unchanged.

  A tick has two ways of producing no state of the data model, in which a cell is a pair
  of integers. \<open>NeverReturns\<close>: the loop of \<open>generateFood\<close> rejects every draw.
  \<open>HeadNotANumber\<close>: \<open>directionRef.current\<close> is an inherited member, so that
  \<open>head.x += currentDir.x\<close> adds \<open>undefined\<close> and both coordinates of the head are
  \<open>NaN\<close>; the source then puts that head in front of the snake (no comparison with
  \<open>NaN\<close> is true, so it neither collides nor eats), and every later head is
  \<open>NaN\<close> as well.
\<close>

datatype failure = NeverReturns | HeadNotANumber

definition newHead :: "Position \<Rightarrow> Position \<Rightarrow> Position" where
  "newHead h currentDir = \<lparr>x = x h + x currentDir, y = y h + y currentDir\<rparr>"

definition moveSnake :: "(nat \<Rightarrow> Position) \<Rightarrow> GameState \<Rightarrow> failure + GameState" where
  "moveSnake rnd s =
     (case snake s of
        [] \<Rightarrow> Inr s
      | h # rest \<Rightarrow>
          (case directionRef s of
             Member name \<Rightarrow> Inl HeadNotANumber
           | Vec currentDir \<Rightarrow>
               let head = newHead h currentDir in
               if checkCollision (snake s) head then Inr (s\<lparr>gameOver := True\<rparr>)
               else
                 let newSnake = head # snake s in
                 if x head = x (food s) \<and> y head = y (food s) then
                   (case generateFood (snake s) rnd of
                      None \<Rightarrow> Inl NeverReturns
                    | Some newFood \<Rightarrow>
                        Inr (s\<lparr>snake := newSnake, food := newFood, score := score s + 10\<rparr>))
                 else Inr (s\<lparr>snake := butlast newSnake\<rparr>)))"

text \<open>
  The effect returns before installing the interval when \<open>gameOver || isPaused\<close> (line 57),
  so a timer tick reaches \<open>moveSnake\<close> only while neither flag is set.
\<close>

definition tick :: "(nat \<Rightarrow> Position) \<Rightarrow> GameState \<Rightarrow> failure + GameState" where
  "tick rnd s = (if gameOver s \<or> isPaused s then Inr s else moveSnake rnd s)"

section \<open>Keyboard input\<close>

text \<open>
  \<open>keyMap\<close> (lines 118 to 123) is an object literal with four own properties, and
  \<open>keyMap[e.key]\<close> (line 125) is a property lookup on it: for a key that is not an own
  property it walks to \<open>Object.prototype\<close> and yields the member of that name if there
  is one, \<open>undefined\<close> otherwise. The names below are the members of
  \<open>Object.prototype\<close> in a browser (the ECMAScript standard and its annex B); each is a
  function or an object, hence truthy in the test of line 126. No key of a keyboard has
  such a name, but the listener receives every \<open>keydown\<close> event that is dispatched.
\<close>

definition objectPrototypeMembers :: "string list" where
  "objectPrototypeMembers =
     [''constructor'', ''hasOwnProperty'', ''isPrototypeOf'', ''propertyIsEnumerable'',
      ''toLocaleString'', ''toString'', ''valueOf'', ''__proto__'', ''__defineGetter__'',
      ''__defineSetter__'', ''__lookupGetter__'', ''__lookupSetter__'']"

definition keyMap :: "string \<Rightarrow> DirValue option" where
  "keyMap key =
     (if key = ''ArrowUp'' then Some (Vec \<lparr>x = 0, y = - 1\<rparr>)
      else if key = ''ArrowDown'' then Some (Vec \<lparr>x = 0, y = 1\<rparr>)
      else if key = ''ArrowLeft'' then Some (Vec \<lparr>x = - 1, y = 0\<rparr>)
      else if key = ''ArrowRight'' then Some (Vec \<lparr>x = 1, y = 0\<rparr>)
      else if key \<in> set objectPrototypeMembers then Some (Member key)
      else None)"

text \<open>
  Reading \<open>.x\<close> and \<open>.y\<close> of the stored object gives a number or \<open>undefined\<close>
  (\<open>None\<close>). The unary minus of line 130 turns \<open>undefined\<close> into \<open>NaN\<close> (again
  \<open>None\<close>), and \<open>a !== b\<close> is true whenever \<open>a\<close> is \<open>undefined\<close> or \<open>b\<close> is
  \<open>NaN\<close>; on two numbers it is their inequality (\<open>0 !== -0\<close> is false).
\<close>

fun readX :: "DirValue \<Rightarrow> int option" where
  "readX (Vec p) = Some (x p)"
| "readX (Member name) = None"

fun readY :: "DirValue \<Rightarrow> int option" where
  "readY (Vec p) = Some (y p)"
| "readY (Member name) = None"

definition negate :: "int option \<Rightarrow> int option" where
  "negate v = (case v of None \<Rightarrow> None | Some n \<Rightarrow> Some (- n))"

definition strictNotEqual :: "int option \<Rightarrow> int option \<Rightarrow> bool" where
  "strictNotEqual a b =
     (case a of
        None \<Rightarrow> True
      | Some m \<Rightarrow> (case b of None \<Rightarrow> True | Some n \<Rightarrow> m \<noteq> n))"

text \<open>The body of the reset branch (lines 103 to 108), which the specification calls \<open>reset\<close>.\<close>

definition reset :: "GameState \<Rightarrow> GameState" where
  "reset s =
     s\<lparr>snake := INITIAL_SNAKE, food := \<lparr>x = 15, y = 15\<rparr>,
       directionRef := Vec INITIAL_DIRECTION, gameOver := False, score := 0,
       isPaused := False\<rparr>"

text \<open>\<open>handleKeyPress\<close> (lines 99 to 136), with \<open>e.key\<close> as its argument.\<close>

definition handleKeyPress :: "string \<Rightarrow> GameState \<Rightarrow> GameState" where
  "handleKeyPress key s =
     (if gameOver s then
        (if key = '' '' \<or> key = ''Enter'' then reset s else s)
      else if key = '' '' \<or> key = ''p'' \<or> key = ''P'' then s\<lparr>isPaused := \<not> isPaused s\<rparr>
      else
        (case keyMap key of
           None \<Rightarrow> s
         | Some newDirection \<Rightarrow>
             let currentDir = directionRef s in
             if strictNotEqual (readX newDirection) (negate (readX currentDir))
                \<and> strictNotEqual (readY newDirection) (negate (readY currentDir))
             then s\<lparr>directionRef := newDirection\<rparr>
             else s))"

section \<open>Runs of the game\<close>

text \<open>
  The browser delivers timer ticks and key presses one at a time. A tick carries the
  outcomes of the random draws made during it.
\<close>

datatype event = Tick "nat \<Rightarrow> Position" | KeyDown string

fun apply_event :: "event \<Rightarrow> GameState \<Rightarrow> failure + GameState" where
  "apply_event (Tick rnd) s = tick rnd s"
| "apply_event (KeyDown key) s = Inr (handleKeyPress key s)"

fun run :: "event list \<Rightarrow> GameState \<Rightarrow> failure + GameState" where
  "run [] s = Inr s"
| "run (e # es) s = (case apply_event e s of Inl f \<Rightarrow> Inl f | Inr s' \<Rightarrow> run es s')"

inductive reachable :: "GameState \<Rightarrow> bool" where
  reachable_init: "reachable initialState"
| reachable_key: "reachable s \<Longrightarrow> reachable (handleKeyPress key s)"
| reachable_tick: "reachable s \<Longrightarrow> tick rnd s = Inr s' \<Longrightarrow> reachable s'"

section \<open>Vocabulary of the specification\<close>

text \<open>The four unit vectors of \<open>keyMap\<close>, which the specification calls directions.\<close>

definition unitVectors :: "Position list" where
  "unitVectors = [\<lparr>x = 1, y = 0\<rparr>, \<lparr>x = - 1, y = 0\<rparr>, \<lparr>x = 0, y = 1\<rparr>, \<lparr>x = 0, y = - 1\<rparr>]"

text \<open>
  What the game loop can hold in \<open>directionRef\<close>: a unit vector, or an inherited member
  (after which no tick yields a cell).
\<close>

fun unitOrMember :: "DirValue \<Rightarrow> bool" where
  "unitOrMember (Vec d) = (d \<in> set unitVectors)"
| "unitOrMember (Member name) = True"

definition opposite :: "Position \<Rightarrow> Position" where
  "opposite d = \<lparr>x = - x d, y = - y d\<rparr>"

text \<open>A cell outside the board: the wall test of \<open>checkCollision\<close>.\<close>

definition outOfBounds :: "Position \<Rightarrow> bool" where
  "outOfBounds p = (x p < 0 \<or> x p \<ge> GRID_SIZE \<or> y p < 0 \<or> y p \<ge> GRID_SIZE)"

text \<open>Every segment moved by one and the same vector.\<close>

definition shiftAll :: "Position \<Rightarrow> Position list \<Rightarrow> Position list" where
  "shiftAll d snk = map (\<lambda>segment. newHead segment d) snk"

text \<open>A snake lying in a straight line along \<open>d\<close>: each segment is one step of \<open>d\<close> ahead of the next.\<close>

fun straightAlong :: "Position \<Rightarrow> Position list \<Rightarrow> bool" where
  "straightAlong d (p # q # rest) = (p = newHead q d \<and> straightAlong d (q # rest))"
| "straightAlong d _ = True"

text \<open>The invariant of the data model: at least one segment, no cell occupied twice.\<close>

definition snakeInvariant :: "GameState \<Rightarrow> bool" where
  "snakeInvariant s = (distinct (snake s) \<and> 1 \<le> length (snake s))"

section \<open>A concrete game\<close>

text \<open>
  A random source that draws the same cell in every iteration, and the play that takes
  the initial snake to the first food at (15,15): five ticks to the right, the down
  arrow, four ticks down. The fifth tick down eats.
\<close>

definition constDraw :: "Position \<Rightarrow> nat \<Rightarrow> Position" where
  "constDraw p i = p"

definition freeDraw :: "nat \<Rightarrow> Position" where
  "freeDraw = constDraw \<lparr>x = 3, y = 3\<rparr>"

definition toFood :: "event list" where
  "toFood =
     [Tick freeDraw, Tick freeDraw, Tick freeDraw, Tick freeDraw, Tick freeDraw,
      KeyDown ''ArrowDown'',
      Tick freeDraw, Tick freeDraw, Tick freeDraw, Tick freeDraw]"

definition beforeFood :: GameState where
  "beforeFood =
     \<lparr>snake = [\<lparr>x = 15, y = 14\<rparr>], food = \<lparr>x = 15, y = 15\<rparr>, gameOver = False, score = 0,
      isPaused = False, directionRef = Vec \<lparr>x = 0, y = 1\<rparr>\<rparr>"

definition afterFood :: GameState where
  "afterFood =
     \<lparr>snake = [\<lparr>x = 15, y = 15\<rparr>, \<lparr>x = 15, y = 14\<rparr>], food = \<lparr>x = 3, y = 3\<rparr>,
      gameOver = False, score = 10, isPaused = False, directionRef = Vec \<lparr>x = 0, y = 1\<rparr>\<rparr>"

text \<open>
  States of that game used below: after the first tick; after the food was eaten and
  the left and up arrows were pressed before the next tick; after the right arrow instead;
  after the tick that follows the two arrows; the snake one step from the right wall; and
  the initial state after a \<open>keydown\<close> event whose key is \<open>constructor\<close>.
\<close>

definition firstStep :: GameState where
  "firstStep =
     \<lparr>snake = [\<lparr>x = 11, y = 10\<rparr>], food = \<lparr>x = 15, y = 15\<rparr>, gameOver = False, score = 0,
      isPaused = False, directionRef = Vec \<lparr>x = 1, y = 0\<rparr>\<rparr>"

definition reversedState :: GameState where
  "reversedState = handleKeyPress ''ArrowUp'' (handleKeyPress ''ArrowLeft'' afterFood)"

definition turnedState :: GameState where
  "turnedState = handleKeyPress ''ArrowRight'' afterFood"

definition crashedState :: GameState where
  "crashedState = reversedState\<lparr>gameOver := True\<rparr>"

definition strayState :: GameState where
  "strayState = handleKeyPress ''constructor'' initialState"

definition toWall :: "event list" where
  "toWall =
     [Tick freeDraw, Tick freeDraw, Tick freeDraw, Tick freeDraw, Tick freeDraw,
      Tick freeDraw, Tick freeDraw, Tick freeDraw, Tick freeDraw]"

definition atWall :: GameState where
  "atWall =
     \<lparr>snake = [\<lparr>x = 19, y = 10\<rparr>], food = \<lparr>x = 15, y = 15\<rparr>, gameOver = False, score = 0,
      isPaused = False, directionRef = Vec \<lparr>x = 1, y = 0\<rparr>\<rparr>"

section \<open>Helper lemmas\<close>

lemma Position_eq_iff: "(x p = x q \<and> y p = y q) = (p = (q::Position))"
  by auto

lemma some_from_elem: "some_from (\<lambda>a i. Q a) i xs = (\<exists>a\<in>set xs. Q a)"
  by (induction xs arbitrary: i) auto

lemma some_from_pos: "some_from (\<lambda>a i. i > 0 \<and> Q a) (Suc n) xs = (\<exists>a\<in>set xs. Q a)"
  by (induction xs arbitrary: n) auto

lemma occupied_iff:
  "array_some (\<lambda>segment index. x segment = x p \<and> y segment = y p) snk
     = ((p::Position) \<in> set snk)"
  by (simp add: array_some_def some_from_elem Position_eq_iff)

lemma self_hit_iff:
  "array_some (\<lambda>segment index. index > 0 \<and> x segment = x p \<and> y segment = y p) snk
     = ((p::Position) \<in> set (tl snk))"
  by (cases snk) (simp_all add: array_some_def some_from_pos Position_eq_iff)

lemma checkCollision_iff:
  "checkCollision snk p = (outOfBounds p \<or> p \<in> set (tl snk))"
  by (simp add: checkCollision_def outOfBounds_def self_hit_iff)

lemma generateFood_loop_step:
  "generateFood_loop snk rnd i =
     (if rnd i \<in> set snk then generateFood_loop snk rnd (Suc i) else Some (rnd i))"
  by (subst generateFood_loop.simps) (simp add: occupied_iff Let_def)

lemma generateFood_loop_free:
  "generateFood_loop snk rnd i = Some f \<Longrightarrow> f \<notin> set snk"
  by (erule generateFood_loop.raw_induct [rotated])
     (simp add: occupied_iff Let_def split: if_splits)

lemma generateFood_loop_returns:
  "rnd (i + k) \<notin> set snk \<Longrightarrow> \<exists>f. generateFood_loop snk rnd i = Some f"
proof (induction k arbitrary: i)
  case 0
  then show ?case by (subst generateFood_loop_step) simp
next
  case (Suc k)
  from Suc.prems have "rnd (Suc i + k) \<notin> set snk" by simp
  from Suc.IH [OF this] show ?case by (subst generateFood_loop_step) simp
qed

lemma generateFood_free: "generateFood snk rnd = Some f \<Longrightarrow> f \<notin> set snk"
  unfolding generateFood_def by (rule generateFood_loop_free)

lemma generateFood_returns: "rnd k \<notin> set snk \<Longrightarrow> \<exists>f. generateFood snk rnd = Some f"
  unfolding generateFood_def using generateFood_loop_returns [of rnd 0 k snk] by simp

lemma generateFood_constDraw:
  "p \<notin> set snk \<Longrightarrow> generateFood snk (constDraw p) = Some p"
  unfolding generateFood_def by (subst generateFood_loop_step) (simp add: constDraw_def)

text \<open>The outcomes of \<open>moveSnake\<close> on a snake with a head.\<close>

lemma moveSnake_member:
  "snake s = h # rest \<Longrightarrow> directionRef s = Member name \<Longrightarrow> moveSnake rnd s = Inl HeadNotANumber"
  by (simp add: moveSnake_def)

lemma moveSnake_collision:
  "snake s = h # rest \<Longrightarrow> directionRef s = Vec d \<Longrightarrow> checkCollision (snake s) (newHead h d)
     \<Longrightarrow> moveSnake rnd s = Inr (s\<lparr>gameOver := True\<rparr>)"
  by (simp add: moveSnake_def)

lemma moveSnake_eat:
  "snake s = h # rest \<Longrightarrow> directionRef s = Vec d
     \<Longrightarrow> \<not> checkCollision (snake s) (newHead h d) \<Longrightarrow> newHead h d = food s
     \<Longrightarrow> moveSnake rnd s =
          (case generateFood (snake s) rnd of
             None \<Rightarrow> Inl NeverReturns
           | Some newFood \<Rightarrow>
               Inr (s\<lparr>snake := newHead h d # snake s, food := newFood,
                      score := score s + 10\<rparr>))"
  by (simp add: moveSnake_def split: option.splits)

lemma moveSnake_move:
  "snake s = h # rest \<Longrightarrow> directionRef s = Vec d
     \<Longrightarrow> \<not> checkCollision (snake s) (newHead h d) \<Longrightarrow> newHead h d \<noteq> food s
     \<Longrightarrow> moveSnake rnd s = Inr (s\<lparr>snake := newHead h d # butlast (snake s)\<rparr>)"
  by (simp add: moveSnake_def Position_eq_iff)

lemma newHead_unit:
  "d \<in> set unitVectors \<Longrightarrow> newHead h d \<noteq> h"
  by (cases h) (auto simp: unitVectors_def newHead_def)

lemma keyMap_unitOrMember: "keyMap key = Some v \<Longrightarrow> unitOrMember v"
  by (auto simp: keyMap_def unitVectors_def split: if_splits)

lemma handleKeyPress_direction:
  "unitOrMember (directionRef s) \<Longrightarrow> unitOrMember (directionRef (handleKeyPress key s))"
  by (auto simp: handleKeyPress_def reset_def unitVectors_def INITIAL_DIRECTION_def Let_def
           dest: keyMap_unitOrMember split: option.splits)

lemma moveSnake_direction:
  "moveSnake rnd s = Inr s' \<Longrightarrow> directionRef s' = directionRef s"
  by (auto simp: moveSnake_def Let_def
           split: list.splits DirValue.splits if_splits option.splits)

lemma tick_direction: "tick rnd s = Inr s' \<Longrightarrow> directionRef s' = directionRef s"
  by (auto simp: tick_def moveSnake_direction split: if_splits)

lemma reachable_unitOrMember: "reachable s \<Longrightarrow> unitOrMember (directionRef s)"
proof (induction rule: reachable.induct)
  case reachable_init
  show ?case by (simp add: initialState_def INITIAL_DIRECTION_def unitVectors_def)
next
  case (reachable_key s key)
  then show ?case by (simp add: handleKeyPress_direction)
next
  case (reachable_tick s rnd s')
  then show ?case by (simp add: tick_direction)
qed

lemma reachable_direction: "reachable s \<Longrightarrow> directionRef s = Vec d \<Longrightarrow> d \<in> set unitVectors"
  using reachable_unitOrMember [of s] by simp

lemma reachable_flags: "reachable s \<Longrightarrow> \<not> (gameOver s \<and> isPaused s)"
proof (induction rule: reachable.induct)
  case reachable_init
  show ?case by (simp add: initialState_def)
next
  case (reachable_key s key)
  then show ?case
    by (auto simp: handleKeyPress_def reset_def Let_def split: option.splits if_splits)
next
  case (reachable_tick s rnd s')
  then show ?case
    by (auto simp: tick_def moveSnake_def Let_def
             split: list.splits DirValue.splits if_splits option.splits)
qed

lemma handleKeyPress_snake:
  "snake (handleKeyPress key s) = snake s \<or> snake (handleKeyPress key s) = INITIAL_SNAKE"
  by (simp add: handleKeyPress_def reset_def Let_def split: option.splits)

lemma handleKeyPress_invariant:
  "snakeInvariant s \<Longrightarrow> snakeInvariant (handleKeyPress key s)"
  using handleKeyPress_snake [of key s]
  by (auto simp: snakeInvariant_def INITIAL_SNAKE_def)

lemma distinct_butlast_Cons:
  "distinct xs \<Longrightarrow> a \<notin> set xs \<Longrightarrow> distinct (a # butlast xs)"
  by (auto simp: distinct_butlast dest: in_set_butlastD)

lemma moveSnake_invariant:
  assumes inv: "snakeInvariant s" and dir: "unitOrMember (directionRef s)"
    and mv: "moveSnake rnd s = Inr s'"
  shows "snakeInvariant s'"
proof -
  from inv obtain h rest where hr: "snake s = h # rest"
    by (cases "snake s") (auto simp: snakeInvariant_def)
  show ?thesis
  proof (cases "directionRef s")
    case (Member name)
    with hr mv show ?thesis by (simp add: moveSnake_member)
  next
    case (Vec d)
    with dir have unit: "d \<in> set unitVectors" by simp
    let ?head = "newHead h d"
    show ?thesis
    proof (cases "checkCollision (snake s) ?head")
      case True
      with hr Vec mv inv show ?thesis
        by (auto simp: moveSnake_collision snakeInvariant_def)
    next
      case False
      with hr unit have fresh: "?head \<notin> set (snake s)"
        by (auto simp: checkCollision_iff newHead_unit)
      show ?thesis
      proof (cases "?head = food s")
        case True
        with hr Vec False mv fresh inv show ?thesis
          by (auto simp: moveSnake_eat snakeInvariant_def split: option.splits)
      next
        case ne: False
        from moveSnake_move [OF hr Vec False ne, of rnd] mv
        have "snake s' = ?head # butlast (snake s)" by auto
        moreover from inv fresh have "distinct (?head # butlast (snake s))"
          by (intro distinct_butlast_Cons) (simp_all add: snakeInvariant_def)
        ultimately show ?thesis
          by (simp add: snakeInvariant_def)
      qed
    qed
  qed
qed

lemma tick_invariant:
  "snakeInvariant s \<Longrightarrow> unitOrMember (directionRef s) \<Longrightarrow> tick rnd s = Inr s'
     \<Longrightarrow> snakeInvariant s'"
  by (auto simp: tick_def moveSnake_invariant split: if_splits)

lemma reachable_invariant: "reachable s \<Longrightarrow> snakeInvariant s"
proof (induction rule: reachable.induct)
  case reachable_init
  show ?case by (simp add: initialState_def INITIAL_SNAKE_def snakeInvariant_def)
next
  case (reachable_key s key)
  then show ?case by (simp add: handleKeyPress_invariant)
next
  case (reachable_tick s rnd s')
  then show ?case by (blast intro: tick_invariant reachable_unitOrMember)
qed

lemma run_reachable: "reachable s \<Longrightarrow> run es s = Inr s' \<Longrightarrow> reachable s'"
proof (induction es arbitrary: s)
  case Nil
  then show ?case by simp
next
  case (Cons e es)
  show ?case
  proof (cases e)
    case (Tick rnd)
    with Cons.prems obtain s1 where "tick rnd s = Inr s1" "run es s1 = Inr s'"
      by (auto split: sum.splits)
    with Cons.IH Cons.prems(1) show ?thesis by (blast intro: reachable_tick)
  next
    case (KeyDown key)
    with Cons.prems have "run es (handleKeyPress key s) = Inr s'" by simp
    with Cons.IH Cons.prems(1) show ?thesis by (blast intro: reachable_key)
  qed
qed

section \<open>Facts about the concrete game\<close>

lemmas eval_defs =
  initialState_def INITIAL_SNAKE_def INITIAL_DIRECTION_def tick_def moveSnake_def
  checkCollision_iff outOfBounds_def newHead_def GRID_SIZE_def handleKeyPress_def keyMap_def
  negate_def strictNotEqual_def reset_def Let_def phase_def

lemma run_toFood: "run toFood initialState = Inr beforeFood"
  by (simp add: toFood_def beforeFood_def eval_defs)

lemma reachable_beforeFood: "reachable beforeFood"
  using run_reachable [OF reachable_init run_toFood] .

lemma tick_beforeFood: "tick freeDraw beforeFood = Inr afterFood"
  by (simp add: beforeFood_def afterFood_def eval_defs freeDraw_def generateFood_constDraw)

lemma reachable_afterFood: "reachable afterFood"
  using reachable_tick [OF reachable_beforeFood tick_beforeFood] .

lemma tick_initialState: "tick rnd initialState = Inr firstStep"
  by (simp add: eval_defs firstStep_def)

lemma reachable_firstStep: "reachable firstStep"
  using reachable_tick [OF reachable_init tick_initialState] .

lemma reversedState_eq:
  "reversedState =
     \<lparr>snake = [\<lparr>x = 15, y = 15\<rparr>, \<lparr>x = 15, y = 14\<rparr>], food = \<lparr>x = 3, y = 3\<rparr>,
      gameOver = False, score = 10, isPaused = False, directionRef = Vec \<lparr>x = 0, y = - 1\<rparr>\<rparr>"
  by (simp add: reversedState_def afterFood_def eval_defs)

lemma reachable_reversedState: "reachable reversedState"
  unfolding reversedState_def by (intro reachable_key reachable_afterFood)

lemma tick_reversedState: "tick rnd reversedState = Inr crashedState"
  by (simp add: crashedState_def reversedState_eq eval_defs)

lemma reachable_crashedState: "reachable crashedState"
  using reachable_tick [OF reachable_reversedState tick_reversedState] .

lemma turnedState_eq:
  "turnedState =
     \<lparr>snake = [\<lparr>x = 15, y = 15\<rparr>, \<lparr>x = 15, y = 14\<rparr>], food = \<lparr>x = 3, y = 3\<rparr>,
      gameOver = False, score = 10, isPaused = False, directionRef = Vec \<lparr>x = 1, y = 0\<rparr>\<rparr>"
  by (simp add: turnedState_def afterFood_def eval_defs)

lemma reachable_turnedState: "reachable turnedState"
  unfolding turnedState_def by (intro reachable_key reachable_afterFood)

lemma run_toWall: "run toWall initialState = Inr atWall"
  by (simp add: toWall_def atWall_def eval_defs)

lemma reachable_atWall: "reachable atWall"
  using run_reachable [OF reachable_init run_toWall] .

lemma strayState_eq:
  "strayState =
     \<lparr>snake = [\<lparr>x = 10, y = 10\<rparr>], food = \<lparr>x = 15, y = 15\<rparr>, gameOver = False, score = 0,
      isPaused = False, directionRef = Member ''constructor''\<rparr>"
  by (simp add: strayState_def eval_defs objectPrototypeMembers_def)

lemma reachable_strayState: "reachable strayState"
  unfolding strayState_def by (intro reachable_key reachable_init)

section \<open>The claims about ticks (claims C1 to C6)\<close>

text \<open>
  Claim C1 says that no sequence of direction requests between two ticks can make the
  next tick move in the exact opposite of the direction of the previous tick. The code
  compares a request with \<open>directionRef.current\<close>, which an earlier request of the same
  window has already overwritten: after the tick that ate the food while moving down,
  the left arrow is accepted, then the up arrow is accepted against "left", and the next
  tick moves up into the second segment and ends the game.
\<close>

theorem C1_reversal_within_one_window:
  "run toFood initialState = Inr beforeFood
   \<and> tick freeDraw beforeFood = Inr afterFood
   \<and> directionRef beforeFood = Vec \<lparr>x = 0, y = 1\<rparr>
   \<and> directionRef afterFood = Vec \<lparr>x = 0, y = 1\<rparr>
   \<and> directionRef (handleKeyPress ''ArrowLeft'' afterFood) = Vec \<lparr>x = - 1, y = 0\<rparr>
   \<and> directionRef (handleKeyPress ''ArrowUp'' (handleKeyPress ''ArrowLeft'' afterFood))
       = Vec (opposite \<lparr>x = 0, y = 1\<rparr>)
   \<and> directionRef reversedState = Vec \<lparr>x = 0, y = - 1\<rparr>
   \<and> newHead (hd (snake reversedState)) \<lparr>x = 0, y = - 1\<rparr> = snake reversedState ! 1
   \<and> tick freeDraw reversedState = Inr (reversedState\<lparr>gameOver := True\<rparr>)"
  using run_toFood tick_beforeFood tick_reversedState [of freeDraw]
  by (simp add: crashedState_def reversedState_eq opposite_def newHead_def
      reversedState_def [symmetric])
     (simp add: afterFood_def beforeFood_def eval_defs)

text \<open>
  Claim C2 says that the food generated when the snake eats lies on no segment of the
  grown snake, the new head included. \<open>generateFood\<close> tests the draw against the snake
  before the tick, so a draw equal to the cell just eaten is accepted: the new food lies
  under the new head.
\<close>

theorem C2_food_under_new_head:
  "reachable beforeFood
   \<and> directionRef beforeFood = Vec \<lparr>x = 0, y = 1\<rparr>
   \<and> newHead (hd (snake beforeFood)) \<lparr>x = 0, y = 1\<rparr> = food beforeFood
   \<and> tick (constDraw \<lparr>x = 15, y = 15\<rparr>) beforeFood
       = Inr (beforeFood\<lparr>snake := [\<lparr>x = 15, y = 15\<rparr>, \<lparr>x = 15, y = 14\<rparr>],
                         food := \<lparr>x = 15, y = 15\<rparr>, score := 10\<rparr>)
   \<and> \<lparr>x = 15, y = 15\<rparr> \<in> set [\<lparr>x = 15, y = 15\<rparr>, \<lparr>x = 15, y = 14\<rparr>]"
  using reachable_beforeFood
  by (simp add: beforeFood_def eval_defs generateFood_constDraw)

text \<open>
  Claim C3: in a tick while Running, if the new head (head plus direction) equals a
  segment of the snake before the tick, the tick ends the game and leaves snake, food and
  score as they were. (In a reachable state a direction with coordinates is a unit
  vector, so the segment met is never the head itself, which \<open>checkCollision\<close> skips;
  with an inherited member as direction the head is \<open>NaN\<close> and equals no segment.)
\<close>

theorem C3_self_collision:
  assumes "reachable s" and "phase s = Running" and "directionRef s = Vec d"
    and "newHead (hd (snake s)) d \<in> set (snake s)"
  shows "\<exists>s'. tick rnd s = Inr s' \<and> phase s' = GameOver \<and> snake s' = snake s
           \<and> food s' = food s \<and> score s' = score s"
proof -
  from reachable_invariant [OF assms(1)] obtain h rest where hr: "snake s = h # rest"
    by (cases "snake s") (auto simp: snakeInvariant_def)
  have "newHead h d \<noteq> h"
    using reachable_direction [OF assms(1,3)] by (rule newHead_unit)
  with assms(4) hr have "checkCollision (snake s) (newHead h d)"
    by (simp add: checkCollision_iff)
  from moveSnake_collision [OF hr assms(3) this, of rnd] assms(2)
  have "tick rnd s = Inr (s\<lparr>gameOver := True\<rparr>)"
    by (simp add: tick_def phase_def split: if_splits)
  then show ?thesis by (simp add: phase_def)
qed

theorem C3_self_collision_witness:
  "reachable reversedState \<and> phase reversedState = Running
   \<and> directionRef reversedState = Vec \<lparr>x = 0, y = - 1\<rparr>
   \<and> newHead (hd (snake reversedState)) \<lparr>x = 0, y = - 1\<rparr> \<in> set (snake reversedState)
   \<and> (\<exists>s'. tick freeDraw reversedState = Inr s' \<and> phase s' = GameOver
          \<and> snake s' = snake reversedState \<and> food s' = food reversedState
          \<and> score s' = score reversedState)"
proof -
  have r: "reachable reversedState" by (rule reachable_reversedState)
  have p: "phase reversedState = Running" by (simp add: reversedState_eq phase_def)
  have d: "directionRef reversedState = Vec \<lparr>x = 0, y = - 1\<rparr>"
    by (simp add: reversedState_eq)
  have c: "newHead (hd (snake reversedState)) \<lparr>x = 0, y = - 1\<rparr> \<in> set (snake reversedState)"
    by (simp add: reversedState_eq newHead_def)
  from C3_self_collision [OF r p d c, of freeDraw] r p d c show ?thesis by blast
qed

text \<open>
  Claim C4: in a tick while Running, if the new head lies outside the board in x or in
  y, the tick ends the game and leaves snake, food and score as they were.
\<close>

theorem C4_wall_collision:
  assumes "snake s = h # rest" and "phase s = Running" and "directionRef s = Vec d"
    and "outOfBounds (newHead h d)"
  shows "\<exists>s'. tick rnd s = Inr s' \<and> phase s' = GameOver \<and> snake s' = snake s
           \<and> food s' = food s \<and> score s' = score s"
proof -
  from assms(4) have "checkCollision (snake s) (newHead h d)"
    by (simp add: checkCollision_iff)
  from moveSnake_collision [OF assms(1,3) this, of rnd] assms(2)
  have "tick rnd s = Inr (s\<lparr>gameOver := True\<rparr>)"
    by (simp add: tick_def phase_def split: if_splits)
  then show ?thesis by (simp add: phase_def)
qed

theorem C4_wall_collision_witness:
  "reachable atWall \<and> snake atWall = [\<lparr>x = 19, y = 10\<rparr>] \<and> phase atWall = Running
   \<and> directionRef atWall = Vec \<lparr>x = 1, y = 0\<rparr>
   \<and> outOfBounds (newHead \<lparr>x = 19, y = 10\<rparr> \<lparr>x = 1, y = 0\<rparr>)
   \<and> (\<exists>s'. tick freeDraw atWall = Inr s' \<and> phase s' = GameOver \<and> snake s' = snake atWall
          \<and> food s' = food atWall \<and> score s' = score atWall)"
proof -
  have s: "snake atWall = [\<lparr>x = 19, y = 10\<rparr>]" by (simp add: atWall_def)
  have p: "phase atWall = Running" by (simp add: atWall_def phase_def)
  have d: "directionRef atWall = Vec \<lparr>x = 1, y = 0\<rparr>" by (simp add: atWall_def)
  have b: "outOfBounds (newHead \<lparr>x = 19, y = 10\<rparr> \<lparr>x = 1, y = 0\<rparr>)"
    by (simp add: outOfBounds_def newHead_def GRID_SIZE_def)
  from C4_wall_collision [OF s p d b, of freeDraw] reachable_atWall s p d b
  show ?thesis by blast
qed

text \<open>
  Claim C5: in every reachable state the segments of the snake are pairwise distinct and
  there is at least one; every key press and every tick preserves this. (It holds in the
  GameOver phase as well.)
\<close>

theorem C5_snake_invariant:
  assumes "reachable s"
  shows "distinct (snake s) \<and> 1 \<le> length (snake s)
         \<and> (\<forall>key. snakeInvariant (handleKeyPress key s))
         \<and> (\<forall>rnd s'. tick rnd s = Inr s' \<longrightarrow> snakeInvariant s')"
proof -
  have "snakeInvariant s" using assms by (rule reachable_invariant)
  moreover have "snakeInvariant (handleKeyPress key s)" for key
    using assms by (intro reachable_invariant reachable_key)
  moreover have "snakeInvariant s'" if "tick rnd s = Inr s'" for rnd s'
    using assms that by (intro reachable_invariant) (rule reachable_tick)
  ultimately show ?thesis by (simp add: snakeInvariant_def)
qed

theorem C5_snake_invariant_witness:
  "reachable afterFood
   \<and> distinct (snake afterFood) \<and> 1 \<le> length (snake afterFood)
   \<and> snakeInvariant (handleKeyPress ''ArrowRight'' afterFood)
   \<and> tick freeDraw afterFood = Inr (afterFood\<lparr>snake := [\<lparr>x = 15, y = 16\<rparr>, \<lparr>x = 15, y = 15\<rparr>]\<rparr>)
   \<and> snakeInvariant (afterFood\<lparr>snake := [\<lparr>x = 15, y = 16\<rparr>, \<lparr>x = 15, y = 15\<rparr>]\<rparr>)"
proof -
  have t: "tick freeDraw afterFood
             = Inr (afterFood\<lparr>snake := [\<lparr>x = 15, y = 16\<rparr>, \<lparr>x = 15, y = 15\<rparr>]\<rparr>)"
    by (simp add: afterFood_def eval_defs)
  from C5_snake_invariant [OF reachable_afterFood] t reachable_afterFood
  show ?thesis by blast
qed

text \<open>
  Claim C6: in a tick while Running without collision whose new head is the food, the
  score grows by exactly 10 and the snake by exactly one segment: the new head is put in
  front and no tail is removed. The tick returns as soon as one draw of the random source
  is a cell off the snake.
\<close>

theorem C6_eating:
  assumes "snake s = h # rest" and "phase s = Running" and "directionRef s = Vec d"
    and "\<not> checkCollision (snake s) (newHead h d)"
    and "newHead h d = food s"
    and "rnd k \<notin> set (snake s)"
  shows "\<exists>s'. tick rnd s = Inr s' \<and> score s' = score s + 10
           \<and> snake s' = newHead h d # snake s
           \<and> length (snake s') = length (snake s) + 1"
proof -
  from generateFood_returns [where rnd = rnd and k = k, OF assms(6)]
  obtain f where "generateFood (snake s) rnd = Some f"
    by blast
  with moveSnake_eat [OF assms(1,3,4,5), of rnd] assms(2) show ?thesis
    by (simp add: tick_def phase_def split: if_splits)
qed

theorem C6_eating_witness:
  "snake beforeFood = [\<lparr>x = 15, y = 14\<rparr>] \<and> phase beforeFood = Running
   \<and> directionRef beforeFood = Vec \<lparr>x = 0, y = 1\<rparr>
   \<and> \<not> checkCollision (snake beforeFood) (newHead \<lparr>x = 15, y = 14\<rparr> \<lparr>x = 0, y = 1\<rparr>)
   \<and> newHead \<lparr>x = 15, y = 14\<rparr> \<lparr>x = 0, y = 1\<rparr> = food beforeFood
   \<and> freeDraw 0 \<notin> set (snake beforeFood)
   \<and> (\<exists>s'. tick freeDraw beforeFood = Inr s' \<and> score s' = score beforeFood + 10
          \<and> snake s' = newHead \<lparr>x = 15, y = 14\<rparr> \<lparr>x = 0, y = 1\<rparr> # snake beforeFood
          \<and> length (snake s') = length (snake beforeFood) + 1)"
proof -
  have a: "snake beforeFood = [\<lparr>x = 15, y = 14\<rparr>]" by (simp add: beforeFood_def)
  have b: "phase beforeFood = Running" by (simp add: beforeFood_def phase_def)
  have v: "directionRef beforeFood = Vec \<lparr>x = 0, y = 1\<rparr>" by (simp add: beforeFood_def)
  have c: "\<not> checkCollision (snake beforeFood) (newHead \<lparr>x = 15, y = 14\<rparr> \<lparr>x = 0, y = 1\<rparr>)"
    by (simp add: beforeFood_def eval_defs)
  have d: "newHead \<lparr>x = 15, y = 14\<rparr> \<lparr>x = 0, y = 1\<rparr> = food beforeFood"
    by (simp add: beforeFood_def newHead_def)
  have e: "freeDraw 0 \<notin> set (snake beforeFood)"
    by (simp add: beforeFood_def freeDraw_def constDraw_def)
  from C6_eating [where rnd = freeDraw and k = 0, OF a b v c d e] a b v c d e
  show ?thesis by blast
qed

section \<open>Restart (claim C7)\<close>

text \<open>
  Claim C7 says that reset yields the initial snake, direction and score, the phase
  Running and a freshly generated food off the snake. The reset of the code generates
  nothing: it puts the food back on the constant cell (15,15), whatever the random source
  would draw. After the crash of the concrete game, with a random source for which
  \<open>generateFood\<close> yields (3,3) on the reset snake, the restart key still leaves the food
  at (15,15).
\<close>

theorem C7_food_not_generated:
  "reachable crashedState \<and> phase crashedState = GameOver
   \<and> handleKeyPress ''Enter'' crashedState = reset crashedState
   \<and> snake (reset crashedState) = INITIAL_SNAKE
   \<and> generateFood (snake (reset crashedState)) freeDraw = Some \<lparr>x = 3, y = 3\<rparr>
   \<and> food (reset crashedState) = \<lparr>x = 15, y = 15\<rparr>
   \<and> Some (food (reset crashedState)) \<noteq> generateFood (snake (reset crashedState)) freeDraw"
  using reachable_crashedState
  by (simp add: crashedState_def reversedState_eq handleKeyPress_def reset_def phase_def
      INITIAL_SNAKE_def freeDraw_def generateFood_constDraw)

text \<open>
  Claim C7 as amended: reset, from any state, yields the initial state: the snake is the
  single segment (10,10), the direction is the initial direction, the score is 0, the
  phase is Running, and the food is on the fixed cell (15,15), the initial food position
  and not a freshly generated one, which is off the snake. The code invokes reset in the
  phase GameOver only, on Space or Enter; in the other phases Enter changes nothing and
  Space toggles the pause.
\<close>

theorem C7_reset:
  "reset s = initialState
   \<and> snake (reset s) = [\<lparr>x = 10, y = 10\<rparr>]
   \<and> directionRef (reset s) = Vec INITIAL_DIRECTION
   \<and> score (reset s) = 0
   \<and> phase (reset s) = Running
   \<and> food (reset s) = \<lparr>x = 15, y = 15\<rparr>
   \<and> food (reset s) \<notin> set (snake (reset s))
   \<and> (phase s = GameOver \<and> (key = '' '' \<or> key = ''Enter'') \<longrightarrow> handleKeyPress key s = reset s)
   \<and> (phase s \<noteq> GameOver \<longrightarrow>
        handleKeyPress ''Enter'' s = s
        \<and> handleKeyPress '' '' s = s\<lparr>isPaused := \<not> isPaused s\<rparr>)"
proof (intro conjI impI)
  show init: "reset s = initialState"
    by (cases s) (simp add: reset_def initialState_def)
  show "snake (reset s) = [\<lparr>x = 10, y = 10\<rparr>]"
    by (simp add: reset_def INITIAL_SNAKE_def)
  show "directionRef (reset s) = Vec INITIAL_DIRECTION" by (simp add: reset_def)
  show "score (reset s) = 0" by (simp add: reset_def)
  show "phase (reset s) = Running" by (simp add: reset_def phase_def)
  show "food (reset s) = \<lparr>x = 15, y = 15\<rparr>" by (simp add: reset_def)
  show "food (reset s) \<notin> set (snake (reset s))"
    by (simp add: reset_def INITIAL_SNAKE_def)
next
  assume "phase s = GameOver \<and> (key = '' '' \<or> key = ''Enter'')"
  then show "handleKeyPress key s = reset s"
    by (auto simp: handleKeyPress_def phase_def split: if_splits)
next
  assume "phase s \<noteq> GameOver"
  then have "\<not> gameOver s" by (simp add: phase_def split: if_splits)
  then show "handleKeyPress ''Enter'' s = s"
    by (simp add: handleKeyPress_def keyMap_def objectPrototypeMembers_def)
next
  assume "phase s \<noteq> GameOver"
  then have "\<not> gameOver s" by (simp add: phase_def split: if_splits)
  then show "handleKeyPress '' '' s = s\<lparr>isPaused := \<not> isPaused s\<rparr>"
    by (simp add: handleKeyPress_def)
qed

theorem C7_reset_witness:
  "reset crashedState = initialState
   \<and> phase crashedState = GameOver \<and> (''Enter'' = '' '' \<or> ''Enter'' = ''Enter'')
   \<and> handleKeyPress ''Enter'' crashedState = initialState
   \<and> food initialState = \<lparr>x = 15, y = 15\<rparr>
   \<and> food initialState \<notin> set (snake initialState)
   \<and> phase firstStep \<noteq> GameOver
   \<and> handleKeyPress ''Enter'' firstStep = firstStep
   \<and> handleKeyPress '' '' firstStep = firstStep\<lparr>isPaused := \<not> isPaused firstStep\<rparr>"
proof -
  have p: "phase crashedState = GameOver" by (simp add: crashedState_def phase_def)
  have k: "''Enter'' = '' '' \<or> ''Enter'' = ''Enter''" by simp
  have q: "phase firstStep \<noteq> GameOver" by (simp add: firstStep_def phase_def)
  note a = C7_reset [of crashedState "''Enter''"]
  note b = C7_reset [of firstStep "''Enter''"]
  from a have 1: "reset crashedState = initialState" by blast
  from a p k have 2: "handleKeyPress ''Enter'' crashedState = reset crashedState" by blast
  from a 1 have 3: "food initialState = \<lparr>x = 15, y = 15\<rparr>" by metis
  from a 1 have 4: "food initialState \<notin> set (snake initialState)" by metis
  from b q have 5: "handleKeyPress ''Enter'' firstStep = firstStep" by blast
  from b q have 6: "handleKeyPress '' '' firstStep = firstStep\<lparr>isPaused := \<not> isPaused firstStep\<rparr>"
    by blast
  from 1 2 3 4 5 6 p k q show ?thesis by simp
qed

section \<open>Phases (claim C8)\<close>

text \<open>
  Claim C8: the only phase transitions are Running to Paused and back by the pause keys,
  Running to GameOver by a collision in a tick, and GameOver to Running by the restart
  keys. In GameOver every other key leaves the state as it is and the pause flag is never
  toggled (Space is the restart input there); outside Running a tick changes nothing.
\<close>

theorem C8_phase_transitions:
  "phase (handleKeyPress key s) =
     (case phase s of
        GameOver \<Rightarrow> if key = '' '' \<or> key = ''Enter'' then Running else GameOver
      | Running \<Rightarrow> if key = '' '' \<or> key = ''p'' \<or> key = ''P'' then Paused else Running
      | Paused \<Rightarrow> if key = '' '' \<or> key = ''p'' \<or> key = ''P'' then Running else Paused)
   \<and> (phase s = GameOver \<and> key \<noteq> '' '' \<and> key \<noteq> ''Enter'' \<longrightarrow> handleKeyPress key s = s)
   \<and> (phase s = GameOver \<and> reachable s \<longrightarrow> isPaused (handleKeyPress key s) = isPaused s)
   \<and> (phase s \<noteq> Running \<longrightarrow> tick rnd s = Inr s)
   \<and> (phase s = Running \<and> tick rnd s = Inr s' \<longrightarrow>
        phase s' = Running
        \<or> phase s' = GameOver \<and> s' = s\<lparr>gameOver := True\<rparr>
            \<and> (\<exists>d. directionRef s = Vec d
                   \<and> checkCollision (snake s) (newHead (hd (snake s)) d)))"
proof (intro conjI impI)
  show "phase (handleKeyPress key s) =
     (case phase s of
        GameOver \<Rightarrow> if key = '' '' \<or> key = ''Enter'' then Running else GameOver
      | Running \<Rightarrow> if key = '' '' \<or> key = ''p'' \<or> key = ''P'' then Paused else Running
      | Paused \<Rightarrow> if key = '' '' \<or> key = ''p'' \<or> key = ''P'' then Running else Paused)"
    by (simp add: phase_def handleKeyPress_def reset_def Let_def split: option.splits)
next
  assume "phase s = GameOver \<and> key \<noteq> '' '' \<and> key \<noteq> ''Enter''"
  then show "handleKeyPress key s = s"
    by (simp add: phase_def handleKeyPress_def split: if_splits)
next
  assume a: "phase s = GameOver \<and> reachable s"
  then have "gameOver s" by (simp add: phase_def split: if_splits)
  moreover with a have "\<not> isPaused s" using reachable_flags [of s] by blast
  ultimately show "isPaused (handleKeyPress key s) = isPaused s"
    by (simp add: handleKeyPress_def reset_def)
next
  assume "phase s \<noteq> Running"
  then show "tick rnd s = Inr s"
    by (simp add: phase_def tick_def split: if_splits)
next
  assume a: "phase s = Running \<and> tick rnd s = Inr s'"
  then have run: "\<not> gameOver s" "\<not> isPaused s" and mv: "moveSnake rnd s = Inr s'"
    by (simp_all add: phase_def tick_def split: if_splits)
  show "phase s' = Running
        \<or> phase s' = GameOver \<and> s' = s\<lparr>gameOver := True\<rparr>
            \<and> (\<exists>d. directionRef s = Vec d
                   \<and> checkCollision (snake s) (newHead (hd (snake s)) d))"
    using mv run
    by (auto simp: moveSnake_def phase_def Let_def
             split: list.splits DirValue.splits if_splits option.splits)
qed

theorem C8_phase_transitions_witness:
  "phase (handleKeyPress ''p'' crashedState) = GameOver
   \<and> handleKeyPress ''p'' crashedState = crashedState
   \<and> reachable crashedState
   \<and> isPaused (handleKeyPress '' '' crashedState) = isPaused crashedState
   \<and> phase (handleKeyPress '' '' crashedState) = Running
   \<and> tick freeDraw crashedState = Inr crashedState
   \<and> phase (handleKeyPress '' '' afterFood) = Paused
   \<and> tick freeDraw (handleKeyPress '' '' afterFood) = Inr (handleKeyPress '' '' afterFood)
   \<and> phase (handleKeyPress '' '' (handleKeyPress '' '' afterFood)) = Running
   \<and> phase reversedState = Running \<and> tick freeDraw reversedState = Inr crashedState
   \<and> phase crashedState = GameOver
   \<and> (\<exists>d. directionRef reversedState = Vec d
          \<and> checkCollision (snake reversedState) (newHead (hd (snake reversedState)) d))"
proof -
  have g: "phase crashedState = GameOver" by (simp add: crashedState_def phase_def)
  have r: "phase afterFood = Running" by (simp add: afterFood_def phase_def)
  have v: "phase reversedState = Running" by (simp add: reversedState_eq phase_def)
  have k: "''p'' \<noteq> '' '' \<and> ''p'' \<noteq> ''Enter''" by simp
  note a = C8_phase_transitions [of "''p''" crashedState freeDraw crashedState]
  note b = C8_phase_transitions [of "'' ''" crashedState freeDraw crashedState]
  note c = C8_phase_transitions [of "'' ''" afterFood freeDraw afterFood]
  note d = C8_phase_transitions [of "'' ''" "handleKeyPress '' '' afterFood" freeDraw afterFood]
  note e = C8_phase_transitions [of "'' ''" reversedState freeDraw crashedState]
  have 1: "phase (handleKeyPress ''p'' crashedState) = GameOver" using a g by simp
  have 2: "handleKeyPress ''p'' crashedState = crashedState" using a g k by blast
  have 3: "isPaused (handleKeyPress '' '' crashedState) = isPaused crashedState"
    using b g reachable_crashedState by blast
  have 4: "phase (handleKeyPress '' '' crashedState) = Running" using b g by simp
  have 5: "tick freeDraw crashedState = Inr crashedState" using a g by simp
  have 6: "phase (handleKeyPress '' '' afterFood) = Paused" using c r by simp
  have 7: "tick freeDraw (handleKeyPress '' '' afterFood) = Inr (handleKeyPress '' '' afterFood)"
    using d 6 by simp
  have 8: "phase (handleKeyPress '' '' (handleKeyPress '' '' afterFood)) = Running"
    using d 6 by simp
  have 9: "\<exists>d. directionRef reversedState = Vec d
             \<and> checkCollision (snake reversedState) (newHead (hd (snake reversedState)) d)"
    using e v g tick_reversedState [of freeDraw] by simp
  from 1 2 3 4 5 6 7 8 9 g v reachable_crashedState tick_reversedState [of freeDraw]
  show ?thesis by blast
qed

section \<open>Movement (claim C9)\<close>

lemma straightAlong_shift:
  "straightAlong d (q # rest) \<Longrightarrow> newHead q d # butlast (q # rest) = shiftAll d (q # rest)"
proof (induction rest arbitrary: q)
  case Nil
  show ?case by (simp add: shiftAll_def)
next
  case (Cons r rest)
  from Cons.prems have "q = newHead r d" and "straightAlong d (r # rest)" by simp_all
  with Cons.IH [of r] show ?case by (simp add: shiftAll_def)
qed

text \<open>
  Claim C9 says that a tick without collision and without food shifts every segment by
  one cell in the current direction. That fails for a snake with a bend: after the food
  was eaten moving down and the right arrow pressed, the head moves right but the second
  segment moves down, into the cell the head has left.
\<close>

theorem C9_bent_snake_not_shifted:
  "reachable turnedState \<and> phase turnedState = Running
   \<and> directionRef turnedState = Vec \<lparr>x = 1, y = 0\<rparr>
   \<and> \<not> checkCollision (snake turnedState) (newHead (hd (snake turnedState)) \<lparr>x = 1, y = 0\<rparr>)
   \<and> newHead (hd (snake turnedState)) \<lparr>x = 1, y = 0\<rparr> \<noteq> food turnedState
   \<and> tick freeDraw turnedState
       = Inr (turnedState\<lparr>snake := [\<lparr>x = 16, y = 15\<rparr>, \<lparr>x = 15, y = 15\<rparr>]\<rparr>)
   \<and> shiftAll \<lparr>x = 1, y = 0\<rparr> (snake turnedState)
       = [\<lparr>x = 16, y = 15\<rparr>, \<lparr>x = 16, y = 14\<rparr>]
   \<and> [\<lparr>x = 16, y = 15\<rparr>, \<lparr>x = 15, y = 15\<rparr>]
       \<noteq> shiftAll \<lparr>x = 1, y = 0\<rparr> (snake turnedState)"
  using reachable_turnedState
  by (simp add: turnedState_eq shiftAll_def eval_defs)

text \<open>
  Claim C9 as amended: in a tick while Running without collision and without food, the
  head shifts by exactly one cell in the current direction and every other segment moves
  to the cell of the segment ahead of it, so that a snake lying in a straight line along
  the direction is shifted as a whole by one cell in that direction; and in every tick
  without collision the length of the snake is unchanged unless the food was eaten, in
  which case it grows by one.
\<close>

theorem C9_move_without_growth:
  assumes "snake s = h # rest" and "phase s = Running" and "directionRef s = Vec d"
    and "\<not> checkCollision (snake s) (newHead h d)"
  shows "(newHead h d \<noteq> food s \<longrightarrow>
           (\<exists>s'. tick rnd s = Inr s'
              \<and> snake s' = newHead h d # butlast (snake s)
              \<and> (\<forall>i. Suc i < length (snake s) \<longrightarrow> snake s' ! Suc i = snake s ! i)
              \<and> (straightAlong d (snake s) \<longrightarrow> snake s' = shiftAll d (snake s))))
         \<and> (\<forall>s'. tick rnd s = Inr s' \<longrightarrow>
               length (snake s') =
                 (if newHead h d = food s then length (snake s) + 1 else length (snake s)))"
proof (intro conjI impI allI)
  assume ne: "newHead h d \<noteq> food s"
  from moveSnake_move [OF assms(1,3,4) ne, of rnd] assms(2)
  have t: "tick rnd s = Inr (s\<lparr>snake := newHead h d # butlast (snake s)\<rparr>)"
    by (simp add: tick_def phase_def split: if_splits)
  have "(newHead h d # butlast (snake s)) ! Suc i = snake s ! i"
    if "Suc i < length (snake s)" for i
    using that by (simp add: nth_butlast)
  moreover have "newHead h d # butlast (snake s) = shiftAll d (snake s)"
    if "straightAlong d (snake s)"
    using that straightAlong_shift [of d h rest] assms(1) by simp
  ultimately show "\<exists>s'. tick rnd s = Inr s'
              \<and> snake s' = newHead h d # butlast (snake s)
              \<and> (\<forall>i. Suc i < length (snake s) \<longrightarrow> snake s' ! Suc i = snake s ! i)
              \<and> (straightAlong d (snake s) \<longrightarrow> snake s' = shiftAll d (snake s))"
    using t by simp
next
  fix s'
  assume t: "tick rnd s = Inr s'"
  with assms(2) have mv: "moveSnake rnd s = Inr s'"
    by (simp add: tick_def phase_def split: if_splits)
  show "length (snake s') =
          (if newHead h d = food s then length (snake s) + 1 else length (snake s))"
  proof (cases "newHead h d = food s")
    case True
    from moveSnake_eat [OF assms(1,3,4) True, of rnd] mv show ?thesis
      using True by (auto split: option.splits)
  next
    case False
    from moveSnake_move [OF assms(1,3,4) False, of rnd] mv assms(1) show ?thesis
      using False by auto
  qed
qed

theorem C9_move_without_growth_witness:
  "snake turnedState = [\<lparr>x = 15, y = 15\<rparr>, \<lparr>x = 15, y = 14\<rparr>] \<and> phase turnedState = Running
   \<and> directionRef turnedState = Vec \<lparr>x = 1, y = 0\<rparr>
   \<and> \<not> checkCollision (snake turnedState) (newHead \<lparr>x = 15, y = 15\<rparr> \<lparr>x = 1, y = 0\<rparr>)
   \<and> newHead \<lparr>x = 15, y = 15\<rparr> \<lparr>x = 1, y = 0\<rparr> \<noteq> food turnedState
   \<and> (\<exists>s'. tick freeDraw turnedState = Inr s'
          \<and> snake s' = [\<lparr>x = 16, y = 15\<rparr>, \<lparr>x = 15, y = 15\<rparr>]
          \<and> snake s' ! Suc 0 = snake turnedState ! 0
          \<and> length (snake s') = length (snake turnedState))
   \<and> directionRef afterFood = Vec \<lparr>x = 0, y = 1\<rparr>
   \<and> straightAlong \<lparr>x = 0, y = 1\<rparr> (snake afterFood)
   \<and> (\<exists>s'. tick freeDraw afterFood = Inr s'
          \<and> snake s' = shiftAll \<lparr>x = 0, y = 1\<rparr> (snake afterFood))
   \<and> directionRef beforeFood = Vec \<lparr>x = 0, y = 1\<rparr>
   \<and> newHead \<lparr>x = 15, y = 14\<rparr> \<lparr>x = 0, y = 1\<rparr> = food beforeFood
   \<and> tick freeDraw beforeFood = Inr afterFood
   \<and> length (snake afterFood) = length (snake beforeFood) + 1"
proof -
  have a1: "snake turnedState = [\<lparr>x = 15, y = 15\<rparr>, \<lparr>x = 15, y = 14\<rparr>]"
    by (simp add: turnedState_eq)
  have a2: "phase turnedState = Running" by (simp add: turnedState_eq phase_def)
  have a0: "directionRef turnedState = Vec \<lparr>x = 1, y = 0\<rparr>" by (simp add: turnedState_eq)
  have a3: "\<not> checkCollision (snake turnedState) (newHead \<lparr>x = 15, y = 15\<rparr> \<lparr>x = 1, y = 0\<rparr>)"
    by (simp add: turnedState_eq eval_defs)
  have a4: "newHead \<lparr>x = 15, y = 15\<rparr> \<lparr>x = 1, y = 0\<rparr> \<noteq> food turnedState"
    by (simp add: turnedState_eq newHead_def)
  have a5: "newHead \<lparr>x = 15, y = 15\<rparr> \<lparr>x = 1, y = 0\<rparr> = \<lparr>x = 16, y = 15\<rparr>"
    by (simp add: newHead_def)
  have a6: "Suc 0 < length (snake turnedState)" by (simp add: a1)
  from C9_move_without_growth [OF a1 a2 a0 a3, of freeDraw] a4
  obtain s' where t: "tick freeDraw turnedState = Inr s'"
    and sn: "snake s' = newHead \<lparr>x = 15, y = 15\<rparr> \<lparr>x = 1, y = 0\<rparr> # butlast (snake turnedState)"
    and nth: "\<forall>i. Suc i < length (snake turnedState) \<longrightarrow> snake s' ! Suc i = snake turnedState ! i"
    and len: "length (snake s') = length (snake turnedState)"
    by auto
  from sn have "snake s' = [\<lparr>x = 16, y = 15\<rparr>, \<lparr>x = 15, y = 15\<rparr>]"
    by (simp add: a5) (simp add: a1)
  moreover from nth a6 have "snake s' ! Suc 0 = snake turnedState ! 0" by blast
  ultimately have A: "\<exists>s'. tick freeDraw turnedState = Inr s'
          \<and> snake s' = [\<lparr>x = 16, y = 15\<rparr>, \<lparr>x = 15, y = 15\<rparr>]
          \<and> snake s' ! Suc 0 = snake turnedState ! 0
          \<and> length (snake s') = length (snake turnedState)"
    using t len by blast
  have b1: "snake afterFood = [\<lparr>x = 15, y = 15\<rparr>, \<lparr>x = 15, y = 14\<rparr>]"
    by (simp add: afterFood_def)
  have b2: "phase afterFood = Running" by (simp add: afterFood_def phase_def)
  have b0: "directionRef afterFood = Vec \<lparr>x = 0, y = 1\<rparr>" by (simp add: afterFood_def)
  have b3: "\<not> checkCollision (snake afterFood) (newHead \<lparr>x = 15, y = 15\<rparr> \<lparr>x = 0, y = 1\<rparr>)"
    by (simp add: afterFood_def eval_defs)
  have b4: "newHead \<lparr>x = 15, y = 15\<rparr> \<lparr>x = 0, y = 1\<rparr> \<noteq> food afterFood"
    by (simp add: afterFood_def newHead_def)
  have b5: "straightAlong \<lparr>x = 0, y = 1\<rparr> (snake afterFood)"
    by (simp add: afterFood_def newHead_def)
  from C9_move_without_growth [OF b1 b2 b0 b3, of freeDraw] b4 b5
  have B: "\<exists>s'. tick freeDraw afterFood = Inr s'
          \<and> snake s' = shiftAll \<lparr>x = 0, y = 1\<rparr> (snake afterFood)"
    by blast
  have c1: "snake beforeFood = [\<lparr>x = 15, y = 14\<rparr>]" by (simp add: beforeFood_def)
  have c2: "phase beforeFood = Running" by (simp add: beforeFood_def phase_def)
  have c0: "directionRef beforeFood = Vec \<lparr>x = 0, y = 1\<rparr>" by (simp add: beforeFood_def)
  have c3: "\<not> checkCollision (snake beforeFood) (newHead \<lparr>x = 15, y = 14\<rparr> \<lparr>x = 0, y = 1\<rparr>)"
    by (simp add: beforeFood_def eval_defs)
  have c4: "newHead \<lparr>x = 15, y = 14\<rparr> \<lparr>x = 0, y = 1\<rparr> = food beforeFood"
    by (simp add: beforeFood_def newHead_def)
  from C9_move_without_growth [OF c1 c2 c0 c3, of freeDraw] c4 tick_beforeFood
  have C: "length (snake afterFood) = length (snake beforeFood) + 1"
    by simp
  from A B C a1 a2 a0 a3 a4 b0 b5 c0 c4 tick_beforeFood show ?thesis by blast
qed

section \<open>Directions (claim C10)\<close>

text \<open>
  Claim C10 says that in every reachable state the direction is one of the four unit
  vectors, so that every tick moves the head to an orthogonally adjacent cell. The
  lookup \<open>keyMap[e.key]\<close> also finds what \<open>keyMap\<close> inherits: a \<open>keydown\<close> event
  whose key is \<open>constructor\<close> passes the truthiness test and the reversal test, the
  inherited member is stored in \<open>directionRef.current\<close>, and in the next tick the head is
  not a cell any more. (A direction with coordinates is a unit vector in every reachable
  state: lemma \<open>reachable_direction\<close>.)
\<close>

theorem C10_inherited_member_as_direction:
  "strayState = handleKeyPress ''constructor'' initialState
   \<and> reachable strayState
   \<and> keyMap ''constructor'' = Some (Member ''constructor'')
   \<and> directionRef strayState = Member ''constructor''
   \<and> directionRef strayState \<notin> set (map Vec unitVectors)
   \<and> phase strayState = Running
   \<and> tick freeDraw strayState = Inl HeadNotANumber"
  using reachable_strayState
  by (simp add: strayState_def [symmetric])
     (simp add: strayState_eq unitVectors_def keyMap_def objectPrototypeMembers_def
       tick_def moveSnake_def phase_def)

end
